theory Spec2Isabelle
  imports Complex_Main "HOL-Library.Word"
begin

section \<open>Configuration constants of \<open>main.cpp\<close>\<close>

text \<open>
  The sketch computes on C \<open>float\<close> values. They are modelled by \<open>real\<close>: every
  arithmetic operation is taken exact, so rounding, infinities and NaN are not part of
  the model. Integers that can wrap (\<open>int32_t\<close> samples, the \<open>unsigned long\<close>
  millisecond clock) are 32-bit words.
\<close>

definition LED_COUNT :: nat where "LED_COUNT = 60"
definition BUFFER_LEN :: nat where "BUFFER_LEN = 64"
definition MAX_VOLUME_TARGET :: real where "MAX_VOLUME_TARGET = 3000"
definition FILTER_SIZE :: nat where "FILTER_SIZE = 5"
definition CALIBRATION_SAMPLES :: nat where "CALIBRATION_SAMPLES = 100"
definition MIN_VOLUME :: real where "MIN_VOLUME = 1500"
definition SMOOTHING_FACTOR :: real where "SMOOTHING_FACTOR = 0.8"
definition UPDATE_INTERVAL :: "32 word" where "UPDATE_INTERVAL = 5"
definition CALIBRATION_WINDOW :: "32 word" where "CALIBRATION_WINDOW = 5000"
definition VOLUME_SAMPLES :: nat where "VOLUME_SAMPLES = 500"
definition PEAK_HISTORY_SIZE :: nat where "PEAK_HISTORY_SIZE = 10"

section \<open>Helpers of \<open>Arduino.h\<close>\<close>

text \<open>
  Modelled from the spec: \<open>Arduino.h\<close> is not part of the sources, so \<open>constrain\<close>,
  \<open>round\<close>, \<open>max\<close> and \<open>abs\<close> are given their documented meaning. \<open>constrain\<close> is the
  macro \<open>((amt)<(low)?(low):((amt)>(high)?(high):(amt)))\<close>; \<open>round\<close> rounds halves
  away from zero; \<open>max\<close> and \<open>abs\<close> are HOL's \<open>max\<close> and \<open>\<bar>_\<bar>\<close>.
\<close>

definition constrain :: "'a::linorder \<Rightarrow> 'a \<Rightarrow> 'a \<Rightarrow> 'a" where
  "constrain amt low high = (if amt < low then low else if amt > high then high else amt)"

definition round_c :: "real \<Rightarrow> int" where
  "round_c x = (if x \<ge> 0 then \<lfloor>x + 1 / 2\<rfloor> else \<lceil>x - 1 / 2\<rceil>)"

section \<open>Sample source\<close>

text \<open>
  One call of \<open>i2s_read\<close>: its status, the byte count it reports, and the contents of
  \<open>sBuffer\<close> after the call. The driver is asked for at most \<open>BUFFER_LEN\<close> words, so
  \<open>bytesIn\<close> is at most \<open>4 * BUFFER_LEN\<close> and \<open>sBuffer\<close> holds \<open>BUFFER_LEN\<close> words; the
  sample loops below read the first \<open>samples_read\<close> of them.
\<close>

record i2s_result =
  esp_ok :: bool
  bytesIn :: nat
  sBuffer :: "32 word list"

text \<open>\<open>int16_t samples_read = bytesIn / sizeof(int32_t)\<close>, read back as a signed value.\<close>

definition samples_read :: "i2s_result \<Rightarrow> int" where
  "samples_read r = sint (word_of_nat (bytesIn r div 4) :: 16 word)"

section \<open>Envelope extractor\<close>

text \<open>
  The sample loop of \<open>loop\<close> (threshold 100000) and of \<open>calibrateBaseline\<close> (threshold
  50000). \<open>sample * sample\<close> is an \<open>int32_t\<close> product: the model takes the 32-bit
  two's complement result, which is what the target's multiplier leaves when the
  square does not fit.
\<close>

fun accumulate :: "int \<Rightarrow> 32 word list \<Rightarrow> real \<times> nat \<Rightarrow> real \<times> nat" where
  "accumulate thr [] (acc, n) = (acc, n)"
| "accumulate thr (w # ws) (acc, n) =
     (let sample = signed_drop_bit 14 w
      in if \<bar>sint sample\<bar> < thr
         then accumulate thr ws (acc + real_of_int (sint (sample * sample)), Suc n)
         else accumulate thr ws (acc, n))"

text \<open>
  The block's RMS when the read succeeded and at least one sample passed the spike
  filter; \<open>None\<close> when the cycle has nothing to update from. Where wrapped squares
  make the sum negative, C's \<open>sqrt\<close> yields NaN, which the model does not have: HOL's
  \<open>sqrt\<close> of a negative real is a negative real there. The theorems on the claims
  below either hold whatever the value of such a block is, or exclude such blocks, or
  state at such a block only what does not depend on the root.
\<close>

definition block_rms :: "int \<Rightarrow> i2s_result \<Rightarrow> real option" where
  "block_rms thr r =
     (if esp_ok r \<and> bytesIn r > 0
      then (case accumulate thr (take (nat (samples_read r)) (sBuffer r)) (0, 0) of
              (acc, validSamples) \<Rightarrow>
                if validSamples > 0 then Some (sqrt (acc / real validSamples)) else None)
      else None)"

section \<open>Gain normalizer\<close>

definition calibratedVolume :: "real \<Rightarrow> real \<Rightarrow> real" where
  "calibratedVolume rms baseline =
     (let cv = max 0 (rms - baseline) in if cv < 100 then 0 else cv)"

definition rawVolume :: "real \<Rightarrow> real \<Rightarrow> real" where
  "rawVolume cv scale = constrain (cv * scale) 0 MAX_VOLUME_TARGET"

section \<open>Temporal smoother\<close>

definition filteredVolume :: "real list \<Rightarrow> real" where
  "filteredVolume vf = foldl (\<lambda>acc i. acc + vf ! i) 0 [0..<FILTER_SIZE]"

definition rate_limit :: "real \<Rightarrow> real \<Rightarrow> real" where
  "rate_limit vol previous =
     (if \<bar>vol - previous\<bar> > MAX_VOLUME_TARGET * 0.3
      then previous + (if vol > previous then MAX_VOLUME_TARGET * 0.05
                       else - MAX_VOLUME_TARGET * 0.05)
      else vol)"

definition ema :: "real \<Rightarrow> real \<Rightarrow> real" where
  "ema smooth vol = smooth * (1.0 - SMOOTHING_FACTOR) + vol * SMOOTHING_FACTOR"

section \<open>Pipeline state\<close>

record pipeline =
  volume :: real
  smoothVolume :: real
  maxVolume :: real
  volumeFilter :: "real list"
  filterIndex :: nat
  baselineNoise :: real
  dynamicScaleFactor :: real
  rawVolumeHistory :: "real list"
  volumeIndex :: nat
  lastCalibration :: "32 word"
  peakHistory :: "real list"
  peakIndex :: nat
  peakCount :: nat
  previousVolume :: real
  lastUpdate :: "32 word"
  leds :: "32 word list"
  serial :: string

text \<open>The globals as initialised, and after the two array-clearing loops of \<open>setup\<close>.\<close>

definition initial :: pipeline where
  "initial = \<lparr> volume = 0, smoothVolume = 0, maxVolume = MAX_VOLUME_TARGET,
       volumeFilter = replicate FILTER_SIZE 0, filterIndex = 0,
       baselineNoise = 15000, dynamicScaleFactor = 2.0,
       rawVolumeHistory = replicate VOLUME_SAMPLES 0, volumeIndex = 0,
       lastCalibration = 0,
       peakHistory = replicate PEAK_HISTORY_SIZE 0, peakIndex = 0, peakCount = 0,
       previousVolume = 0, lastUpdate = 0,
       leds = replicate LED_COUNT 0, serial = [] \<rparr>"

section \<open>The audio half of \<open>loop\<close>\<close>

definition process_audio :: "i2s_result \<Rightarrow> pipeline \<Rightarrow> pipeline" where
  "process_audio r s =
     (case block_rms 100000 r of
        None \<Rightarrow> s
      | Some rms \<Rightarrow>
          (let cv = calibratedVolume rms (baselineNoise s);
               rv = rawVolume cv (dynamicScaleFactor s);
               vf = (volumeFilter s)[filterIndex s := rv];
               fi = (filterIndex s + 1) mod FILTER_SIZE;
               vol = rate_limit (filteredVolume vf / real FILTER_SIZE) (previousVolume s)
           in s\<lparr> volumeFilter := vf, filterIndex := fi,
                 volume := vol, previousVolume := vol,
                 smoothVolume := ema (smoothVolume s) vol,
                 rawVolumeHistory := (rawVolumeHistory s)[volumeIndex s := cv],
                 volumeIndex := (volumeIndex s + 1) mod VOLUME_SAMPLES \<rparr>))"

section \<open>Adaptive gain controller\<close>

definition addPeakToHistory :: "real \<Rightarrow> pipeline \<Rightarrow> pipeline" where
  "addPeakToHistory peak s =
     s\<lparr> peakHistory := (peakHistory s)[peakIndex s := peak],
        peakIndex := (peakIndex s + 1) mod PEAK_HISTORY_SIZE,
        peakCount := (if peakCount s < PEAK_HISTORY_SIZE then peakCount s + 1
                      else peakCount s) \<rparr>"

definition getAveragePeak :: "pipeline \<Rightarrow> real" where
  "getAveragePeak s =
     (if peakCount s = 0 then 0
      else foldl (\<lambda>acc i. acc + peakHistory s ! i) 0 [0..<peakCount s]
             / real (peakCount s))"

definition currentMaxDetected :: "real list \<Rightarrow> real" where
  "currentMaxDetected h =
     foldl (\<lambda>m i. if h ! i > m then h ! i else m) 0 [0..<VOLUME_SAMPLES]"

text \<open>The body of \<open>if (now - lastCalibration >= CALIBRATION_WINDOW)\<close>.\<close>

definition recalibrate :: "32 word \<Rightarrow> pipeline \<Rightarrow> pipeline" where
  "recalibrate now s =
     (let peak = currentMaxDetected (rawVolumeHistory s);
          s1 = (if peak > baselineNoise s * 2 then addPeakToHistory peak s else s);
          averagePeak = getAveragePeak s1;
          s2 = (if averagePeak > 0
                then (let newScale = MAX_VOLUME_TARGET / averagePeak;
                          scale = dynamicScaleFactor s1 * 0.8 + newScale * 0.2
                      in s1\<lparr> dynamicScaleFactor := scale,
                              maxVolume := averagePeak * scale \<rparr>)
                else s1)
      in s2\<lparr> lastCalibration := now \<rparr>)"

section \<open>Level-to-light mapper\<close>

definition numLedsToLight :: "real \<Rightarrow> int" where
  "numLedsToLight sv =
     (if sv > MIN_VOLUME
      then (if sv \<ge> MAX_VOLUME_TARGET * 0.95 then int LED_COUNT
            else (let normalized = (sv - MIN_VOLUME) / (MAX_VOLUME_TARGET - MIN_VOLUME);
                      curved = normalized powr 0.7
                  in constrain (round_c (curved * real LED_COUNT)) 1 (int LED_COUNT)))
      else 0)"

definition center :: int where
  "center = int LED_COUNT div 2"

definition ledIndex :: "int \<Rightarrow> int" where
  "ledIndex i = (if i mod 2 = 0 then center + i div 2 else center - 1 - i div 2)"

definition pixelColor :: "int \<Rightarrow> 32 word" where
  "pixelColor li =
     (let distanceFromCenter = real_of_int \<bar>li - center\<bar> / real (LED_COUNT div 2)
      in if distanceFromCenter < 0.33 then 0x00FF00
         else if distanceFromCenter < 0.66 then 0xFFFF00
         else 0xFF0000)"

definition setPixel :: "32 word list \<Rightarrow> int \<Rightarrow> 32 word list" where
  "setPixel frame i =
     (let li = ledIndex i
      in if li \<ge> 0 \<and> li < int LED_COUNT then frame[nat li := pixelColor li] else frame)"

text \<open>The ordinals \<open>0 .. n - 1\<close> the lighting loop runs through, in order.\<close>

definition ordinals :: "int \<Rightarrow> int list" where
  "ordinals n = map int [0..<nat n]"

definition updateLedsByVolume :: "pipeline \<Rightarrow> pipeline" where
  "updateLedsByVolume s =
     s\<lparr> leds := foldl setPixel (replicate LED_COUNT 0)
                   (ordinals (numLedsToLight (smoothVolume s))) \<rparr>"

section \<open>Telemetry\<close>

text \<open>
  Modelled from the spec: the \<open>Print\<close> class behind \<open>Serial\<close> is not part of the
  sources. An \<open>int\<close> is printed in decimal with a leading minus sign, \<open>println\<close> ends
  the line with CR LF, and the rendering of a \<open>float\<close> is the parameter \<open>fmt\<close>.
\<close>

fun print_nat :: "nat \<Rightarrow> string" where
  "print_nat n =
     (if n < 10 then [''0123456789'' ! n]
      else print_nat (n div 10) @ [''0123456789'' ! (n mod 10)])"

definition print_int :: "int \<Rightarrow> string" where
  "print_int i = (if i < 0 then CHR ''-'' # print_nat (nat (- i)) else print_nat (nat i))"

definition crlf :: string where
  "crlf = [CHR 0x0D, CHR 0x0A]"

definition telemetry :: "(real \<Rightarrow> string) \<Rightarrow> pipeline \<Rightarrow> string" where
  "telemetry fmt s =
     ''MinRange:'' @ print_int (- 1000)
     @ ''Volume:'' @ fmt (volume s)
     @ '',SmoothVolume:'' @ fmt (smoothVolume s)
     @ '',MaxVolume:'' @ fmt (maxVolume s)
     @ '',MaxRange:'' @ print_int 5000 @ crlf"

section \<open>The main cycle\<close>

text \<open>
  One call of \<open>loop\<close>: \<open>now\<close> is the value of \<open>millis()\<close>, \<open>r\<close> the outcome of the
  blocking read. \<open>now - lastUpdate\<close> is unsigned 32-bit arithmetic. The closing
  \<open>ws2812fx.service()\<close> belongs to the LED driver and touches none of the state below.
\<close>

definition tick :: "(real \<Rightarrow> string) \<Rightarrow> 32 word \<Rightarrow> pipeline \<Rightarrow> pipeline" where
  "tick fmt now s =
     (let s1 = updateLedsByVolume s;
          s2 = (if now - lastCalibration s1 \<ge> CALIBRATION_WINDOW then recalibrate now s1
                else s1)
      in s2\<lparr> serial := serial s2 @ telemetry fmt s2, lastUpdate := now \<rparr>)"

definition loop :: "(real \<Rightarrow> string) \<Rightarrow> 32 word \<Rightarrow> i2s_result \<Rightarrow> pipeline \<Rightarrow> pipeline" where
  "loop fmt now r s =
     (let s1 = process_audio r s
      in if now - lastUpdate s1 > UPDATE_INTERVAL then tick fmt now s1 else s1)"

section \<open>Noise-floor calibrator\<close>

text \<open>
  \<open>reads k\<close> is the outcome of the \<open>k\<close>-th read of the calibration loop. The step
  function is the loop body, on the pair \<open>(totalNoise, validSamples)\<close>.
\<close>

definition calibration_step ::
  "(nat \<Rightarrow> i2s_result) \<Rightarrow> real \<times> nat \<Rightarrow> nat \<Rightarrow> real \<times> nat" where
  "calibration_step reads tv k =
     (case block_rms 50000 (reads k) of
        None \<Rightarrow> tv
      | Some rms \<Rightarrow> (fst tv + rms, snd tv + 1))"

definition calibrateBaseline ::
  "(real \<Rightarrow> string) \<Rightarrow> (nat \<Rightarrow> i2s_result) \<Rightarrow> pipeline \<Rightarrow> pipeline" where
  "calibrateBaseline fmt reads s =
     (let s0 = s\<lparr> serial := serial s @ ''Calibrating baseline noise level...'' @ crlf
                                      @ ''Please keep quiet for 3 seconds...'' @ crlf \<rparr>;
          tv = foldl (calibration_step reads) (0, 0) [0..<CALIBRATION_SAMPLES];
          totalNoise = fst tv;
          validSamples = snd tv
      in if validSamples > 0
         then (let b = totalNoise / real validSamples
               in s0\<lparr> baselineNoise := b,
                       serial := serial s0 @ ''Baseline calibrated to: '' @ fmt b @ crlf \<rparr>)
         else s0\<lparr> serial := serial s0 @ ''Calibration failed, using default'' @ crlf \<rparr>)"

section \<open>Runs and invariants\<close>

text \<open>The range of a displayed volume, and the smoother's state within it.\<close>

definition in_range :: "real \<Rightarrow> bool" where
  "in_range x \<longleftrightarrow> 0 \<le> x \<and> x \<le> MAX_VOLUME_TARGET"

definition smoother_ok :: "pipeline \<Rightarrow> bool" where
  "smoother_ok s \<longleftrightarrow>
     length (volumeFilter s) = FILTER_SIZE \<and> filterIndex s < FILTER_SIZE
     \<and> list_all in_range (volumeFilter s)
     \<and> in_range (previousVolume s) \<and> in_range (volume s) \<and> in_range (smoothVolume s)"

text \<open>A run of the main cycle over a sequence of clock readings and read outcomes.\<close>

definition run :: "(real \<Rightarrow> string) \<Rightarrow> (32 word \<times> i2s_result) list \<Rightarrow> pipeline \<Rightarrow> pipeline" where
  "run fmt cycles s = foldl (\<lambda>s (now, r). loop fmt now r s) s cycles"

text \<open>
  The state in which \<open>previousVolume\<close> is the mean of the moving-average window, as
  it is whenever the rate limiter has let the mean through.
\<close>

definition tracking :: "pipeline \<Rightarrow> bool" where
  "tracking s \<longleftrightarrow>
     smoother_ok s \<and> previousVolume s = filteredVolume (volumeFilter s) / real FILTER_SIZE"

text \<open>The gain controller's state: a well-formed peak history and a positive scale.\<close>

definition agc_ok :: "pipeline \<Rightarrow> bool" where
  "agc_ok s \<longleftrightarrow>
     length (peakHistory s) = PEAK_HISTORY_SIZE \<and> peakIndex s < PEAK_HISTORY_SIZE
     \<and> peakCount s \<le> PEAK_HISTORY_SIZE \<and> list_all (\<lambda>x. 0 \<le> x) (peakHistory s)
     \<and> 0 < dynamicScaleFactor s"

text \<open>
  A sequence of recalibrations, each over a volume history \<open>h\<close> of its own: the
  gain controller seen apart from the audio path that fills the history.
\<close>

definition agc_cycles :: "(32 word \<times> real list) list \<Rightarrow> pipeline \<Rightarrow> pipeline" where
  "agc_cycles ws s = foldl (\<lambda>s (now, h). recalibrate now (s\<lparr> rawVolumeHistory := h \<rparr>)) s ws"

text \<open>The number of pixels of a frame that are not black.\<close>

definition lit_pixels :: "32 word list \<Rightarrow> nat" where
  "lit_pixels frame = length (filter (\<lambda>c. c \<noteq> 0) frame)"

text \<open>
  The envelope in the words of the specification: the samples shifted right by 14
  bits, those kept whose absolute value is below the threshold, and the root of the
  mean of their squares, the squares taken in the integers.
\<close>

definition spec_valid_samples :: "int \<Rightarrow> i2s_result \<Rightarrow> int list" where
  "spec_valid_samples thr r =
     filter (\<lambda>x. \<bar>x\<bar> < thr)
       (map (\<lambda>w. sint w div 2 ^ 14) (take (nat (samples_read r)) (sBuffer r)))"

definition spec_rms :: "int list \<Rightarrow> real" where
  "spec_rms xs = sqrt (real_of_int (\<Sum>x\<leftarrow>xs. x * x) / real (length xs))"

definition spec_block_rms :: "int \<Rightarrow> i2s_result \<Rightarrow> real option" where
  "spec_block_rms thr r =
     (if esp_ok r \<and> bytesIn r > 0 \<and> spec_valid_samples thr r \<noteq> []
      then Some (spec_rms (spec_valid_samples thr r)) else None)"

section \<open>Auxiliary facts\<close>

lemma upt_filter_size: "[0..<FILTER_SIZE] = [0, 1, 2, 3, 4]"
  by (simp add: FILTER_SIZE_def upt_rec)

lemma filteredVolume_unfold:
  "filteredVolume vf = vf ! 0 + vf ! 1 + vf ! 2 + vf ! 3 + vf ! 4"
  by (simp add: filteredVolume_def upt_filter_size)

lemma sqrt_40000: "sqrt 40000 = 200"
proof -
  have "sqrt 40000 = sqrt (200\<^sup>2)" by simp
  also have "\<dots> = 200" by (simp only: real_sqrt_abs abs_numeral)
  finally show ?thesis .
qed

lemma accumulate_filter:
  "accumulate thr ws (a, n) =
     (a + (\<Sum>w\<leftarrow>filter (\<lambda>w. \<bar>sint (signed_drop_bit 14 w)\<bar> < thr) ws.
              real_of_int (sint (signed_drop_bit 14 w * signed_drop_bit 14 w))),
      n + length (filter (\<lambda>w. \<bar>sint (signed_drop_bit 14 w)\<bar> < thr) ws))"
  by (induction ws arbitrary: a n) (simp_all add: Let_def)

lemma accumulate_all_rejected:
  assumes "\<forall>w\<in>set ws. thr \<le> \<bar>sint (signed_drop_bit 14 w)\<bar>"
  shows "accumulate thr ws (a, n) = (a, n)"
proof -
  have "filter (\<lambda>w. \<bar>sint (signed_drop_bit 14 w)\<bar> < thr) ws = []"
    using assms by (auto simp: filter_empty_conv)
  then show ?thesis by (simp add: accumulate_filter)
qed

lemma block_rms_None:
  assumes "\<not> esp_ok r \<or> bytesIn r = 0
           \<or> (\<forall>w\<in>set (take (nat (samples_read r)) (sBuffer r)).
                 thr \<le> \<bar>sint (signed_drop_bit 14 w)\<bar>)"
  shows "block_rms thr r = None"
  using assms by (auto simp: block_rms_def accumulate_all_rejected)

lemma block_rms_one_sample_200:
  "block_rms 100000 \<lparr> esp_ok = True, bytesIn = 4, sBuffer = [3276800] \<rparr> = Some 200"
  by (simp add: block_rms_def samples_read_def sqrt_40000)

lemma tick_frame:
  "volume (tick fmt now s) = volume s"
  "smoothVolume (tick fmt now s) = smoothVolume s"
  "previousVolume (tick fmt now s) = previousVolume s"
  "volumeFilter (tick fmt now s) = volumeFilter s"
  "filterIndex (tick fmt now s) = filterIndex s"
  "rawVolumeHistory (tick fmt now s) = rawVolumeHistory s"
  "volumeIndex (tick fmt now s) = volumeIndex s"
  by (simp_all add: tick_def Let_def recalibrate_def addPeakToHistory_def
      updateLedsByVolume_def)

section \<open>Gain normalizer: order of the steps and range\<close>

text \<open>
  Claim C1. In a cycle whose block yields an RMS value, the gain normalizer computes
  (a) \<open>max 0 (rms - baselineNoise)\<close>, (b) replaces a value below 100 by 0, (c)
  multiplies by \<open>dynamicScaleFactor\<close>, (d) clamps into \<open>[0, 3000]\<close>, in this order. The
  result lies in \<open>[0, MAX_VOLUME_TARGET]\<close> and is what enters the moving-average
  window; the value written to \<open>rawVolumeHistory\<close> is the one after step (b), before
  scaling. The range needs no assumption on the signs of baseline and scale factor.
\<close>

theorem gain_normalizer_steps:
  assumes "block_rms 100000 r = Some rms"
    and "filterIndex s < length (volumeFilter s)"
    and "volumeIndex s < length (rawVolumeHistory s)"
  shows "let a = max 0 (rms - baselineNoise s);
             b = (if a < 100 then 0 else a);
             c = b * dynamicScaleFactor s;
             d = min 3000 (max 0 c);
             s' = process_audio r s
         in rawVolume (calibratedVolume rms (baselineNoise s)) (dynamicScaleFactor s) = d
            \<and> 0 \<le> d \<and> d \<le> MAX_VOLUME_TARGET
            \<and> volumeFilter s' ! filterIndex s = d
            \<and> rawVolumeHistory s' ! volumeIndex s = b"
  using assms
  by (simp add: process_audio_def Let_def calibratedVolume_def rawVolume_def constrain_def
      MAX_VOLUME_TARGET_def)

theorem gain_normalizer_steps_witness:
  "block_rms 100000 \<lparr> esp_ok = True, bytesIn = 4, sBuffer = [3276800] \<rparr> = Some 200
   \<and> volumeFilter (process_audio \<lparr> esp_ok = True, bytesIn = 4, sBuffer = [3276800] \<rparr>
        (initial\<lparr> baselineNoise := 50 \<rparr>)) ! 0 = 300
   \<and> rawVolumeHistory (process_audio \<lparr> esp_ok = True, bytesIn = 4, sBuffer = [3276800] \<rparr>
        (initial\<lparr> baselineNoise := 50 \<rparr>)) ! 0 = 150"
  using gain_normalizer_steps [OF block_rms_one_sample_200,
      of "initial\<lparr> baselineNoise := 50 \<rparr>"]
  by (simp add: block_rms_one_sample_200 initial_def FILTER_SIZE_def VOLUME_SAMPLES_def
      Let_def)

section \<open>Rate limiter\<close>

text \<open>
  Claim C3. In a cycle whose moving-average output \<open>ma\<close> differs from \<open>previousVolume\<close>
  (the previous cycle's value before the exponential average) by more than 900, which
  is 30 percent of \<open>MAX_VOLUME_TARGET\<close>, the volume becomes the previous value plus 150
  towards \<open>ma\<close>, 150 being 5 percent of \<open>MAX_VOLUME_TARGET\<close>; the change of the rate
  limiter's output in that cycle is 150 in magnitude.
\<close>

theorem rate_limiter_step:
  assumes "block_rms 100000 r = Some rms"
    and "ma = filteredVolume ((volumeFilter s)[filterIndex s :=
               rawVolume (calibratedVolume rms (baselineNoise s)) (dynamicScaleFactor s)])
             / real FILTER_SIZE"
    and "\<bar>ma - previousVolume s\<bar> > 900"
  shows "volume (process_audio r s)
           = previousVolume s + (if ma > previousVolume s then 150 else - 150)
         \<and> \<bar>volume (process_audio r s) - previousVolume s\<bar> = 150
         \<and> previousVolume (process_audio r s) = volume (process_audio r s)
         \<and> MAX_VOLUME_TARGET * 0.3 = 900 \<and> MAX_VOLUME_TARGET * 0.05 = 150"
  using assms
  by (simp add: process_audio_def Let_def rate_limit_def MAX_VOLUME_TARGET_def)

theorem rate_limiter_step_witness:
  "\<bar>(2480 :: real) - 0\<bar> > 900
   \<and> volume (process_audio \<lparr> esp_ok = True, bytesIn = 4, sBuffer = [3276800] \<rparr>
        (initial\<lparr> volumeFilter := [0, 3000, 3000, 3000, 3000], baselineNoise := 0 \<rparr>))
       = 150"
  using rate_limiter_step [OF block_rms_one_sample_200, of 2480
      "initial\<lparr> volumeFilter := [0, 3000, 3000, 3000, 3000], baselineNoise := 0 \<rparr>"]
  by (simp add: initial_def filteredVolume_unfold rawVolume_def
      calibratedVolume_def constrain_def MAX_VOLUME_TARGET_def FILTER_SIZE_def)

section \<open>Cycles without an update\<close>

text \<open>
  Claim C4. When the read fails, reports zero bytes, or every sample of the block is
  rejected by the spike filter, the cycle leaves \<open>volume\<close>, \<open>smoothVolume\<close>,
  \<open>previousVolume\<close>, the moving-average window and its cursor, and the volume
  history and its cursor exactly as they were, whether or not the update tick runs.
\<close>

theorem failed_read_frame:
  assumes "\<not> esp_ok r \<or> bytesIn r = 0
           \<or> (\<forall>w\<in>set (take (nat (samples_read r)) (sBuffer r)).
                 100000 \<le> \<bar>sint (signed_drop_bit 14 w)\<bar>)"
  shows "let s' = loop fmt now r s
         in volume s' = volume s \<and> smoothVolume s' = smoothVolume s
            \<and> previousVolume s' = previousVolume s
            \<and> volumeFilter s' = volumeFilter s \<and> filterIndex s' = filterIndex s
            \<and> rawVolumeHistory s' = rawVolumeHistory s \<and> volumeIndex s' = volumeIndex s"
proof -
  have "block_rms 100000 r = None"
    using assms by (intro block_rms_None) simp
  then have "process_audio r s = s"
    by (simp add: process_audio_def)
  then show ?thesis
    by (simp add: loop_def Let_def tick_frame)
qed

theorem failed_read_frame_witness:
  "100000 \<le> \<bar>sint (signed_drop_bit 14 (1638400000 :: 32 word))\<bar>
   \<and> smoothVolume (loop (\<lambda>x. []) 7 \<lparr> esp_ok = True, bytesIn = 4, sBuffer = [1638400000] \<rparr>
        (initial\<lparr> smoothVolume := 42 \<rparr>)) = 42
   \<and> volumeIndex (loop (\<lambda>x. []) 7 \<lparr> esp_ok = True, bytesIn = 4, sBuffer = [1638400000] \<rparr>
        (initial\<lparr> smoothVolume := 42 \<rparr>)) = 0"
proof -
  have h: "\<forall>w\<in>set (take (nat (samples_read
                 \<lparr> esp_ok = True, bytesIn = 4, sBuffer = [1638400000] \<rparr>))
               (sBuffer \<lparr> esp_ok = True, bytesIn = 4, sBuffer = [1638400000] \<rparr>)).
             100000 \<le> \<bar>sint (signed_drop_bit 14 w)\<bar>"
    by (simp add: samples_read_def)
  from h have "\<not> esp_ok \<lparr> esp_ok = True, bytesIn = 4, sBuffer = [1638400000] \<rparr>
      \<or> bytesIn \<lparr> esp_ok = True, bytesIn = 4, sBuffer = [1638400000] \<rparr> = 0
      \<or> (\<forall>w\<in>set (take (nat (samples_read
                 \<lparr> esp_ok = True, bytesIn = 4, sBuffer = [1638400000] \<rparr>))
               (sBuffer \<lparr> esp_ok = True, bytesIn = 4, sBuffer = [1638400000] \<rparr>)).
             100000 \<le> \<bar>sint (signed_drop_bit 14 w)\<bar>)"
    by blast
  from failed_read_frame [OF this, of "\<lambda>x. []" 7 "initial\<lparr> smoothVolume := 42 \<rparr>"] h
  show ?thesis
    by (simp add: Let_def initial_def)
qed

section \<open>Adaptive gain: the scale factor stays positive\<close>

lemma foldl_nth_sum:
  "n \<le> length xs \<Longrightarrow> foldl (\<lambda>acc i. acc + xs ! i) (a :: real) [0..<n] = a + sum_list (take n xs)"
  by (induction n) (simp_all add: take_Suc_conv_app_nth)

lemma foldl_max_ge: "(m :: real) \<le> foldl (\<lambda>m i. if h ! i > m then h ! i else m) m is"
proof (induction "is" arbitrary: m)
  case Nil
  show ?case by simp
next
  case (Cons i "is")
  have "m \<le> (if h ! i > m then h ! i else m)" by simp
  also have "\<dots> \<le> foldl (\<lambda>m i. if h ! i > m then h ! i else m) (if h ! i > m then h ! i else m) is"
    by (rule Cons.IH)
  finally show ?case by simp
qed

lemma currentMaxDetected_nonneg: "0 \<le> currentMaxDetected h"
  unfolding currentMaxDetected_def by (rule foldl_max_ge)

lemma getAveragePeak_nonneg:
  assumes "agc_ok s"
  shows "0 \<le> getAveragePeak s"
proof -
  have "peakCount s \<le> length (peakHistory s)"
    using assms by (simp add: agc_ok_def)
  then have "foldl (\<lambda>acc i. acc + peakHistory s ! i) 0 [0..<peakCount s]
      = sum_list (take (peakCount s) (peakHistory s))"
    by (simp add: foldl_nth_sum)
  moreover have "0 \<le> sum_list (take (peakCount s) (peakHistory s))"
    using assms
    by (intro sum_list_nonneg) (auto simp: agc_ok_def list_all_iff dest: in_set_takeD)
  ultimately show ?thesis
    by (simp add: getAveragePeak_def)
qed

lemma addPeakToHistory_ok:
  assumes "agc_ok s" "0 \<le> peak"
  shows "agc_ok (addPeakToHistory peak s)"
  using assms set_update_subset_insert [of "peakHistory s" "peakIndex s" peak]
  by (auto simp: agc_ok_def addPeakToHistory_def list_all_iff PEAK_HISTORY_SIZE_def)

lemma recalibrate_scale:
  assumes "agc_ok s"
  shows "let peak = currentMaxDetected (rawVolumeHistory s);
             s1 = (if peak > baselineNoise s * 2 then addPeakToHistory peak s else s);
             averagePeak = getAveragePeak s1;
             s' = recalibrate now s
         in (averagePeak = 0 \<and> dynamicScaleFactor s' = dynamicScaleFactor s)
            \<or> (0 < averagePeak
                \<and> dynamicScaleFactor s'
                    = dynamicScaleFactor s * 0.8 + (3000 / averagePeak) * 0.2)"
proof -
  define s1 where "s1 = (if currentMaxDetected (rawVolumeHistory s) > baselineNoise s * 2
      then addPeakToHistory (currentMaxDetected (rawVolumeHistory s)) s else s)"
  have ok: "agc_ok s1"
    using assms by (simp add: s1_def addPeakToHistory_ok currentMaxDetected_nonneg)
  have d: "dynamicScaleFactor s1 = dynamicScaleFactor s"
    by (simp add: s1_def addPeakToHistory_def)
  have "0 \<le> getAveragePeak s1"
    using ok by (rule getAveragePeak_nonneg)
  then have "getAveragePeak s1 = 0 \<or> 0 < getAveragePeak s1" by linarith
  then show ?thesis
    using d
    by (auto simp: recalibrate_def Let_def s1_def [symmetric] MAX_VOLUME_TARGET_def)
qed

lemma recalibrate_ok:
  assumes "agc_ok s"
  shows "agc_ok (recalibrate now s)"
proof -
  define s1 where "s1 = (if currentMaxDetected (rawVolumeHistory s) > baselineNoise s * 2
      then addPeakToHistory (currentMaxDetected (rawVolumeHistory s)) s else s)"
  have ok: "agc_ok s1"
    using assms by (simp add: s1_def addPeakToHistory_ok currentMaxDetected_nonneg)
  show ?thesis
  proof (cases "0 < getAveragePeak s1")
    case True
    then have "0 < MAX_VOLUME_TARGET / getAveragePeak s1"
      by (simp add: MAX_VOLUME_TARGET_def)
    moreover have "0 < dynamicScaleFactor s1"
      using ok by (simp add: agc_ok_def)
    ultimately have "0 < dynamicScaleFactor s1 * 0.8 + MAX_VOLUME_TARGET / getAveragePeak s1 * 0.2"
      by (simp add: add_pos_pos)
    with ok True show ?thesis
      by (simp add: recalibrate_def Let_def s1_def [symmetric] agc_ok_def)
  next
    case False
    with ok show ?thesis
      by (simp add: recalibrate_def Let_def s1_def [symmetric] agc_ok_def)
  qed
qed

lemma agc_ok_history: "agc_ok (s\<lparr> rawVolumeHistory := h \<rparr>) = agc_ok s"
  by (simp add: agc_ok_def)

lemma agc_cycles_ok: "agc_ok s \<Longrightarrow> agc_ok (agc_cycles ws s)"
  unfolding agc_cycles_def
  by (induction ws arbitrary: s) (auto simp: recalibrate_ok agc_ok_history)

lemma initial_agc_ok: "agc_ok (initial\<lparr> baselineNoise := b \<rparr>)"
  by (simp add: agc_ok_def initial_def PEAK_HISTORY_SIZE_def list_all_iff)

lemma process_audio_agc: "agc_ok (process_audio r s) = agc_ok s"
  by (simp add: process_audio_def agc_ok_def Let_def split: option.split)

lemma tick_agc: "agc_ok s \<Longrightarrow> agc_ok (tick fmt now s)"
proof -
  assume a: "agc_ok s"
  have u: "agc_ok (updateLedsByVolume s)"
    using a by (simp add: agc_ok_def updateLedsByVolume_def)
  have "agc_ok (if now - lastCalibration (updateLedsByVolume s) \<ge> CALIBRATION_WINDOW
      then recalibrate now (updateLedsByVolume s) else updateLedsByVolume s)"
    using u by (simp add: recalibrate_ok)
  then show ?thesis
    by (simp add: tick_def Let_def agc_ok_def)
qed

lemma loop_agc: "agc_ok s \<Longrightarrow> agc_ok (loop fmt now r s)"
  by (simp add: loop_def Let_def tick_agc process_audio_agc)

lemma run_agc: "agc_ok s \<Longrightarrow> agc_ok (run fmt cycles s)"
  unfolding run_def
  by (induction cycles arbitrary: s) (auto simp: loop_agc)

lemma foldl_max_Max:
  "n \<le> length h \<Longrightarrow>
   foldl (\<lambda>m i. if h ! i > m then h ! i else m) (m :: real) [0..<n]
     = Max (insert m (set (take n h)))"
proof (induction n)
  case 0
  show ?case by simp
next
  case (Suc n)
  define M where "M = Max (insert m (set (take n h)))"
  have IH: "foldl (\<lambda>m i. if h ! i > m then h ! i else m) m [0..<n] = M"
    using Suc by (simp add: M_def)
  have "foldl (\<lambda>m i. if h ! i > m then h ! i else m) m [0..<Suc n]
      = (if h ! n > M then h ! n else M)"
    by (simp add: IH)
  also have "\<dots> = max (h ! n) M"
    by (simp add: max_def not_less)
  also have "\<dots> = Max (insert (h ! n) (insert m (set (take n h))))"
    unfolding M_def by (rule Max_insert [symmetric]) simp_all
  also have "insert (h ! n) (insert m (set (take n h))) = insert m (set (take (Suc n) h))"
    using Suc.prems by (auto simp: take_Suc_conv_app_nth)
  finally show ?case .
qed

lemma currentMaxDetected_Max:
  "length h = VOLUME_SAMPLES \<Longrightarrow> currentMaxDetected h = Max (insert 0 (set h))"
  by (simp add: currentMaxDetected_def foldl_max_Max)

lemma spike_history: "currentMaxDetected (10000 # replicate 499 0) = 10000"
  by (simp add: currentMaxDetected_Max VOLUME_SAMPLES_def)

text \<open>
  Claim C2. \<open>dynamicScaleFactor\<close> starts at 2 and is strictly positive after any
  sequence of recalibrations, whatever volume histories (hence peaks) they see, and
  after any run of the main cycle. Each recalibration leaves it unchanged when
  \<open>averagePeak = 0\<close>, and otherwise \<open>averagePeak > 0\<close> and the new value is
  \<open>dynamicScaleFactor * 0.8 + (3000 / averagePeak) * 0.2\<close>.
\<close>

theorem scale_factor_positive:
  "dynamicScaleFactor initial = 2
   \<and> 0 < dynamicScaleFactor (agc_cycles ws (initial\<lparr> baselineNoise := b \<rparr>))
   \<and> 0 < dynamicScaleFactor (run fmt cycles (calibrateBaseline fmt reads initial))
   \<and> (let s = (agc_cycles ws (initial\<lparr> baselineNoise := b \<rparr>))\<lparr> rawVolumeHistory := h \<rparr>;
           peak = currentMaxDetected h;
           s1 = (if peak > baselineNoise s * 2 then addPeakToHistory peak s else s);
           averagePeak = getAveragePeak s1;
           s' = recalibrate now s
       in (averagePeak = 0 \<and> dynamicScaleFactor s' = dynamicScaleFactor s)
          \<or> (0 < averagePeak
              \<and> dynamicScaleFactor s'
                  = dynamicScaleFactor s * 0.8 + (3000 / averagePeak) * 0.2))"
proof -
  have a: "agc_ok (agc_cycles ws (initial\<lparr> baselineNoise := b \<rparr>))"
    by (intro agc_cycles_ok initial_agc_ok)
  have "agc_ok (calibrateBaseline fmt reads initial)"
    using initial_agc_ok [of 0]
    by (simp add: calibrateBaseline_def Let_def agc_ok_def)
  then have c: "agc_ok (run fmt cycles (calibrateBaseline fmt reads initial))"
    by (rule run_agc)
  have h: "agc_ok ((agc_cycles ws (initial\<lparr> baselineNoise := b \<rparr>))\<lparr> rawVolumeHistory := h \<rparr>)"
    using a by (simp add: agc_ok_history)
  have i: "dynamicScaleFactor initial = 2"
    by (simp add: initial_def)
  have pa: "0 < dynamicScaleFactor (agc_cycles ws (initial\<lparr> baselineNoise := b \<rparr>))"
    using a by (simp add: agc_ok_def)
  have pc: "0 < dynamicScaleFactor (run fmt cycles (calibrateBaseline fmt reads initial))"
    using c by (simp add: agc_ok_def)
  show ?thesis
    using i pa pc recalibrate_scale [OF h, of now]
    by (simp add: Let_def)
qed

theorem scale_factor_positive_witness:
  "dynamicScaleFactor (recalibrate 5000
      ((agc_cycles [] (initial\<lparr> baselineNoise := 100 \<rparr>))
         \<lparr> rawVolumeHistory := 10000 # replicate 499 0 \<rparr>)) = 1.66
   \<and> 0 < dynamicScaleFactor (agc_cycles [(5000, 10000 # replicate 499 0)]
           (initial\<lparr> baselineNoise := 100 \<rparr>))"
  using scale_factor_positive [of "[]" 100 _ _ _ "10000 # replicate 499 0" 5000]
    scale_factor_positive [of "[(5000, 10000 # replicate 499 0)]" 100]
  by (simp add: Let_def agc_cycles_def spike_history initial_def addPeakToHistory_def
      getAveragePeak_def PEAK_HISTORY_SIZE_def)

section \<open>Temporal smoother: the displayed volume stays in range\<close>

lemma rawVolume_in_range: "in_range (rawVolume cv k)"
  by (simp add: in_range_def rawVolume_def constrain_def MAX_VOLUME_TARGET_def)

lemma rate_limit_in_range:
  assumes "in_range v" "in_range p"
  shows "in_range (rate_limit v p)"
  using assms by (auto simp: in_range_def rate_limit_def MAX_VOLUME_TARGET_def)

lemma ema_in_range:
  assumes "in_range a" "in_range v"
  shows "in_range (ema a v)"
proof -
  have "ema a v = a * 0.2 + v * 0.8"
    by (simp add: ema_def SMOOTHING_FACTOR_def)
  with assms show ?thesis
    by (simp add: in_range_def MAX_VOLUME_TARGET_def)
qed

lemma mean_in_range:
  assumes "length vf = FILTER_SIZE" "list_all in_range vf"
  shows "in_range (filteredVolume vf / real FILTER_SIZE)"
proof -
  have "\<forall>i<5. in_range (vf ! i)"
    using assms by (simp add: list_all_length FILTER_SIZE_def)
  then have "in_range (vf ! 0)" "in_range (vf ! 1)" "in_range (vf ! 2)"
    "in_range (vf ! 3)" "in_range (vf ! 4)"
    by simp_all
  then show ?thesis
    by (simp add: filteredVolume_unfold FILTER_SIZE_def in_range_def MAX_VOLUME_TARGET_def)
qed

lemma list_all_update:
  assumes "list_all P xs" "P x"
  shows "list_all P (xs[i := x])"
  using assms set_update_subset_insert [of xs i x] by (auto simp: list_all_iff)

lemma process_audio_ok:
  assumes "smoother_ok s"
  shows "smoother_ok (process_audio r s)"
proof (cases "block_rms 100000 r")
  case None
  with assms show ?thesis by (simp add: process_audio_def)
next
  case (Some rms)
  define vf where "vf = (volumeFilter s)[filterIndex s :=
      rawVolume (calibratedVolume rms (baselineNoise s)) (dynamicScaleFactor s)]"
  define vol where "vol = rate_limit (filteredVolume vf / real FILTER_SIZE) (previousVolume s)"
  have len: "length vf = FILTER_SIZE"
    using assms by (simp add: vf_def smoother_ok_def)
  have all: "list_all in_range vf"
    unfolding vf_def using assms
    by (intro list_all_update rawVolume_in_range) (simp add: smoother_ok_def)
  have vol: "in_range vol"
    unfolding vol_def using assms
    by (intro rate_limit_in_range mean_in_range len all) (simp add: smoother_ok_def)
  have sm: "in_range (ema (smoothVolume s) vol)"
    using assms vol by (intro ema_in_range) (simp_all add: smoother_ok_def)
  have fi: "(filterIndex s + 1) mod FILTER_SIZE < FILTER_SIZE"
    by (simp add: FILTER_SIZE_def)
  show ?thesis
    using Some len all vol sm fi
    by (simp add: process_audio_def Let_def smoother_ok_def vf_def [symmetric]
        vol_def [symmetric])
qed

lemma tick_ok: "smoother_ok (tick fmt now s) = smoother_ok s"
  by (simp add: smoother_ok_def tick_frame)

lemma loop_ok: "smoother_ok s \<Longrightarrow> smoother_ok (loop fmt now r s)"
  by (simp add: loop_def Let_def tick_ok process_audio_ok)

lemma run_ok: "smoother_ok s \<Longrightarrow> smoother_ok (run fmt cycles s)"
  unfolding run_def
  by (induction cycles arbitrary: s) (auto simp: loop_ok)

lemma initial_ok: "smoother_ok initial"
  by (simp add: smoother_ok_def initial_def in_range_def MAX_VOLUME_TARGET_def list_all_iff
      FILTER_SIZE_def)

lemma calibrate_ok: "smoother_ok (calibrateBaseline fmt reads s) = smoother_ok s"
  by (simp add: smoother_ok_def calibrateBaseline_def Let_def)

text \<open>
  Claim C10. From the initial state (\<open>smoothVolume = 0\<close>, \<open>previousVolume = 0\<close>),
  after calibration and any number of cycles, the rate-limited \<open>volume\<close> and
  \<open>smoothVolume\<close> lie in \<open>[0, MAX_VOLUME_TARGET]\<close>: the moving average of in-range
  slots is in range, the rate limiter's step of 150 cannot leave the range, and the
  exponential average is a convex combination of two in-range values.
\<close>

theorem smoothed_volume_bounded:
  "0 \<le> volume (run fmt cycles (calibrateBaseline fmt reads initial))
   \<and> volume (run fmt cycles (calibrateBaseline fmt reads initial)) \<le> MAX_VOLUME_TARGET
   \<and> 0 \<le> smoothVolume (run fmt cycles (calibrateBaseline fmt reads initial))
   \<and> smoothVolume (run fmt cycles (calibrateBaseline fmt reads initial)) \<le> MAX_VOLUME_TARGET"
proof -
  have "smoother_ok (run fmt cycles (calibrateBaseline fmt reads initial))"
    by (intro run_ok) (simp add: calibrate_ok initial_ok)
  then show ?thesis
    by (simp add: smoother_ok_def in_range_def)
qed

theorem smoothed_volume_bounded_witness:
  "0 \<le> smoothVolume (run (\<lambda>x. [])
          [(7, \<lparr> esp_ok = True, bytesIn = 4, sBuffer = [3276800] \<rparr>)]
          (calibrateBaseline (\<lambda>x. [])
            (\<lambda>k. \<lparr> esp_ok = False, bytesIn = 0, sBuffer = [] \<rparr>) initial))
   \<and> smoothVolume (run (\<lambda>x. [])
          [(7, \<lparr> esp_ok = True, bytesIn = 4, sBuffer = [3276800] \<rparr>)]
          (calibrateBaseline (\<lambda>x. [])
            (\<lambda>k. \<lparr> esp_ok = False, bytesIn = 0, sBuffer = [] \<rparr>) initial)) \<le> 3000"
  using smoothed_volume_bounded [of "\<lambda>x. []"
      "[(7, \<lparr> esp_ok = True, bytesIn = 4, sBuffer = [3276800] \<rparr>)]"
      "\<lambda>k. \<lparr> esp_ok = False, bytesIn = 0, sBuffer = [] \<rparr>"]
  by (simp add: MAX_VOLUME_TARGET_def)

section \<open>Level-to-light mapper\<close>

lemma round_c_mono:
  assumes "0 \<le> x" "x \<le> y"
  shows "round_c x \<le> round_c y"
  using assms by (simp add: round_c_def floor_mono)

lemma constrain_mono:
  assumes "x \<le> y" "lo \<le> hi"
  shows "constrain x lo hi \<le> constrain y lo hi"
  using assms by (auto simp: constrain_def)

lemma numLeds_bounds: "0 \<le> numLedsToLight sv \<and> numLedsToLight sv \<le> 60"
  by (simp add: numLedsToLight_def Let_def constrain_def LED_COUNT_def)

lemma numLeds_low: "sv \<le> MIN_VOLUME \<Longrightarrow> numLedsToLight sv = 0"
  by (simp add: numLedsToLight_def)

lemma numLeds_high: "sv \<ge> 2850 \<Longrightarrow> numLedsToLight sv = 60"
  by (simp add: numLedsToLight_def MIN_VOLUME_def MAX_VOLUME_TARGET_def LED_COUNT_def)

lemma numLeds_mono:
  assumes "MIN_VOLUME < a" "a \<le> b"
  shows "numLedsToLight a \<le> numLedsToLight b"
proof (cases "b \<ge> MAX_VOLUME_TARGET * 0.95")
  case True
  then have "numLedsToLight b = 60"
    using assms by (simp add: numLedsToLight_def LED_COUNT_def)
  then show ?thesis
    using numLeds_bounds [of a] by simp
next
  case False
  define na where "na = (a - MIN_VOLUME) / (MAX_VOLUME_TARGET - MIN_VOLUME)"
  define nb where "nb = (b - MIN_VOLUME) / (MAX_VOLUME_TARGET - MIN_VOLUME)"
  have "0 \<le> na" "na \<le> nb"
    using assms by (simp_all add: na_def nb_def MIN_VOLUME_def MAX_VOLUME_TARGET_def)
  then have "na powr 0.7 \<le> nb powr 0.7"
    by (intro powr_mono2) simp_all
  then have "na powr 0.7 * real LED_COUNT \<le> nb powr 0.7 * real LED_COUNT"
    by (simp add: LED_COUNT_def)
  moreover have "0 \<le> na powr 0.7 * real LED_COUNT"
    by simp
  ultimately have "round_c (na powr 0.7 * real LED_COUNT) \<le> round_c (nb powr 0.7 * real LED_COUNT)"
    by (intro round_c_mono)
  then have "constrain (round_c (na powr 0.7 * real LED_COUNT)) 1 (int LED_COUNT)
      \<le> constrain (round_c (nb powr 0.7 * real LED_COUNT)) 1 (int LED_COUNT)"
    by (intro constrain_mono) (simp_all add: LED_COUNT_def)
  then show ?thesis
    using assms False
    by (simp add: numLedsToLight_def Let_def na_def nb_def)
qed

lemma pixelColor_pos: "pixelColor j \<noteq> 0"
  by (simp add: pixelColor_def Let_def)

lemma ordinals_Suc: "ordinals (int (Suc n)) = ordinals (int n) @ [int n]"
proof -
  have "nat (int (Suc n)) = Suc n" "nat (int n) = n"
    by (simp_all only: nat_int)
  then show ?thesis
    by (simp only: ordinals_def upt_Suc_append [OF le0] map_append list.map)
qed

lemma lit_frame:
  assumes "n \<le> 60"
  shows "foldl setPixel (replicate LED_COUNT 0) (ordinals (int n))
     = map (\<lambda>j. if 30 - n div 2 \<le> j \<and> j < 30 + (n + 1) div 2 then pixelColor (int j) else 0)
         [0..<60]"
  using assms
proof (induction n)
  case 0
  have "(\<lambda>j::nat. if 30 \<le> j \<and> j < 30 then pixelColor (int j) else 0) = (\<lambda>j. 0)"
    by (rule ext) auto
  then show ?case
    by (simp add: ordinals_def LED_COUNT_def map_replicate_trivial)
next
  case (Suc n)
  then have IH: "foldl setPixel (replicate LED_COUNT 0) (ordinals (int n))
     = map (\<lambda>j. if 30 - n div 2 \<le> j \<and> j < 30 + (n + 1) div 2 then pixelColor (int j) else 0)
         [0..<60]"
    by simp
  have n: "n < 60" using Suc.prems by simp
  have "foldl setPixel (replicate LED_COUNT 0) (ordinals (int (Suc n)))
      = setPixel (foldl setPixel (replicate LED_COUNT 0) (ordinals (int n))) (int n)"
    by (simp only: ordinals_Suc foldl_append foldl.simps)
  then have step: "foldl setPixel (replicate LED_COUNT 0) (ordinals (int (Suc n)))
      = setPixel (map (\<lambda>j. if 30 - n div 2 \<le> j \<and> j < 30 + (n + 1) div 2
                            then pixelColor (int j) else 0) [0..<60]) (int n)"
    by (simp only: IH)
  show ?case
  proof (cases "even n")
    case True
    then have "int n mod 2 = 0" by presburger
    then have li: "ledIndex (int n) = int (30 + n div 2)"
      by (simp add: ledIndex_def center_def LED_COUNT_def zdiv_int)
    have e: "(Suc n + 1) div 2 = n div 2 + 1" "Suc n div 2 = n div 2" "(n + 1) div 2 = n div 2"
      using True by auto
    show ?thesis
      unfolding step using n
      by (auto simp: setPixel_def Let_def li LED_COUNT_def e
          intro!: nth_equalityI simp: nth_list_update)
  next
    case False
    then have "int n mod 2 \<noteq> 0" by presburger
    moreover have "n div 2 \<le> 29" using n by simp
    ultimately have li: "ledIndex (int n) = int (29 - n div 2)"
      by (simp add: ledIndex_def center_def LED_COUNT_def zdiv_int of_nat_diff)
    have e: "(Suc n + 1) div 2 = n div 2 + 1" "Suc n div 2 = n div 2 + 1" "(n + 1) div 2 = n div 2 + 1"
      using False by auto
    show ?thesis
      unfolding step using n
      by (auto simp: setPixel_def Let_def li LED_COUNT_def e
          intro!: nth_equalityI simp: nth_list_update)
  qed
qed

lemma lit_pixels_interval:
  assumes "b \<le> 60"
  shows "lit_pixels (map (\<lambda>j. if a \<le> j \<and> j < b then pixelColor (int j) else 0) [0..<60])
     = b - a"
proof -
  have "(\<lambda>j. (if a \<le> j \<and> j < b then pixelColor (int j) else 0) \<noteq> 0)
      = (\<lambda>j. a \<le> j \<and> j < b)"
    by (rule ext) (simp add: pixelColor_pos)
  then have "lit_pixels (map (\<lambda>j. if a \<le> j \<and> j < b then pixelColor (int j) else 0) [0..<60])
      = length (filter (\<lambda>j. a \<le> j \<and> j < b) [0..<60])"
    by (simp add: lit_pixels_def filter_map comp_def)
  also have "\<dots> = card (set (filter (\<lambda>j. a \<le> j \<and> j < b) [0..<60]))"
    by (rule distinct_card [symmetric]) (rule distinct_filter, rule distinct_upt)
  also have "set (filter (\<lambda>j. a \<le> j \<and> j < b) [0..<60]) = {j. j < 60 \<and> a \<le> j \<and> j < b}"
    by (simp only: set_filter set_upt) auto
  also have "{j. j < 60 \<and> a \<le> j \<and> j < b} = {a..<b}"
    using assms by auto
  finally show ?thesis by simp
qed

lemma lit_pixels_count:
  "int (lit_pixels (leds (updateLedsByVolume s))) = numLedsToLight (smoothVolume s)"
proof -
  define n where "n = nat (numLedsToLight (smoothVolume s))"
  have n: "n \<le> 60" and N: "numLedsToLight (smoothVolume s) = int n"
    using numLeds_bounds [of "smoothVolume s"] by (simp_all add: n_def nat_le_iff)
  have b: "30 + (n + 1) div 2 \<le> 60"
    using n by simp
  have "(n + 1) div 2 + n div 2 = n"
    by linarith
  moreover have "n div 2 \<le> 30"
    using n by simp
  ultimately have "30 + (n + 1) div 2 - (30 - n div 2) = n"
    by linarith
  moreover have "leds (updateLedsByVolume s)
      = map (\<lambda>j. if 30 - n div 2 \<le> j \<and> j < 30 + (n + 1) div 2
                  then pixelColor (int j) else 0) [0..<60]"
    by (simp add: updateLedsByVolume_def N lit_frame [OF n])
  ultimately have "lit_pixels (leds (updateLedsByVolume s)) = n"
    by (simp only: lit_pixels_interval [OF b])
  then show ?thesis
    by (simp only: N)
qed

text \<open>
  Claim C6. A \<open>smoothVolume\<close> of at most \<open>MIN_VOLUME = 1500\<close> (in particular 0) lights
  no pixel; one of at least \<open>0.95 * MAX_VOLUME_TARGET = 2850\<close> (in particular 3000)
  lights all 60; and above \<open>MIN_VOLUME\<close> the number of lit pixels does not decrease
  when \<open>smoothVolume\<close> grows. The number of lit pixels of the frame is
  \<open>numLedsToLight\<close>.
\<close>

theorem mapper_monotone:
  "(smoothVolume s \<le> MIN_VOLUME \<longrightarrow> lit_pixels (leds (updateLedsByVolume s)) = 0)
   \<and> (smoothVolume s \<ge> 0.95 * MAX_VOLUME_TARGET \<longrightarrow>
        lit_pixels (leds (updateLedsByVolume s)) = 60)
   \<and> (MIN_VOLUME < smoothVolume s \<and> smoothVolume s \<le> smoothVolume t \<longrightarrow>
        lit_pixels (leds (updateLedsByVolume s)) \<le> lit_pixels (leds (updateLedsByVolume t)))
   \<and> int (lit_pixels (leds (updateLedsByVolume s))) = numLedsToLight (smoothVolume s)
   \<and> numLedsToLight 0 = 0 \<and> numLedsToLight MAX_VOLUME_TARGET = int LED_COUNT
   \<and> MIN_VOLUME = 1500 \<and> 0.95 * MAX_VOLUME_TARGET = 2850 \<and> LED_COUNT = 60"
proof -
  have c: "int (lit_pixels (leds (updateLedsByVolume u))) = numLedsToLight (smoothVolume u)" for u
    by (rule lit_pixels_count)
  have lo: "smoothVolume s \<le> MIN_VOLUME \<longrightarrow> lit_pixels (leds (updateLedsByVolume s)) = 0"
    using c [of s] numLeds_low [of "smoothVolume s"] by auto
  have "smoothVolume s \<ge> 2850 \<longrightarrow> lit_pixels (leds (updateLedsByVolume s)) = 60"
    using c [of s] numLeds_high [of "smoothVolume s"] by auto
  then have hi: "smoothVolume s \<ge> 0.95 * MAX_VOLUME_TARGET \<longrightarrow>
        lit_pixels (leds (updateLedsByVolume s)) = 60"
    by (simp add: MAX_VOLUME_TARGET_def)
  have mono: "MIN_VOLUME < smoothVolume s \<and> smoothVolume s \<le> smoothVolume t \<longrightarrow>
        lit_pixels (leds (updateLedsByVolume s)) \<le> lit_pixels (leds (updateLedsByVolume t))"
    using c [of s] c [of t] numLeds_mono [of "smoothVolume s" "smoothVolume t"] by auto
  have z: "numLedsToLight 0 = 0"
    by (simp add: numLeds_low MIN_VOLUME_def)
  have m: "numLedsToLight MAX_VOLUME_TARGET = int LED_COUNT"
    by (simp add: numLeds_high MAX_VOLUME_TARGET_def LED_COUNT_def)
  have k: "MIN_VOLUME = 1500" "0.95 * MAX_VOLUME_TARGET = 2850" "LED_COUNT = 60"
    by (simp_all add: MIN_VOLUME_def MAX_VOLUME_TARGET_def LED_COUNT_def)
  from lo hi mono c [of s] z m k show ?thesis
    by (intro conjI)
qed

theorem mapper_monotone_witness:
  "lit_pixels (leds (updateLedsByVolume (initial\<lparr> smoothVolume := 0 \<rparr>))) = 0
   \<and> lit_pixels (leds (updateLedsByVolume (initial\<lparr> smoothVolume := 3000 \<rparr>))) = 60
   \<and> lit_pixels (leds (updateLedsByVolume (initial\<lparr> smoothVolume := 2000 \<rparr>)))
       \<le> lit_pixels (leds (updateLedsByVolume (initial\<lparr> smoothVolume := 3000 \<rparr>)))"
proof -
  have "smoothVolume (initial\<lparr> smoothVolume := 0 \<rparr>) \<le> MIN_VOLUME"
    by (simp add: MIN_VOLUME_def)
  moreover have "smoothVolume (initial\<lparr> smoothVolume := 3000 \<rparr>) \<ge> 0.95 * MAX_VOLUME_TARGET"
    by (simp add: MAX_VOLUME_TARGET_def)
  moreover have "MIN_VOLUME < smoothVolume (initial\<lparr> smoothVolume := 2000 \<rparr>)
      \<and> smoothVolume (initial\<lparr> smoothVolume := 2000 \<rparr>)
          \<le> smoothVolume (initial\<lparr> smoothVolume := 3000 \<rparr>)"
    by (simp add: MIN_VOLUME_def)
  ultimately show ?thesis
    using mapper_monotone [of "initial\<lparr> smoothVolume := 0 \<rparr>"]
      mapper_monotone [of "initial\<lparr> smoothVolume := 3000 \<rparr>"]
      mapper_monotone [of "initial\<lparr> smoothVolume := 2000 \<rparr>"
        "initial\<lparr> smoothVolume := 3000 \<rparr>"]
    by blast
qed

section \<open>Scenario: a settled volume of 2250\<close>

lemma half_powr_bounds: "0.615 < (0.5 :: real) powr 0.7 \<and> (0.5 :: real) powr 0.7 < 0.617"
proof -
  define c :: real where "c = 0.5 powr 0.7"
  have pos: "0 < c" by (simp add: c_def)
  have "c ^ 10 = c powr 10"
    using pos powr_realpow [of c 10] by simp
  also have "\<dots> = 0.5 powr 7"
    by (simp add: c_def powr_powr)
  also have "\<dots> = 0.5 ^ 7"
    using powr_realpow [of "0.5 :: real" 7] by simp
  also have "\<dots> = 1 / 128"
    by (simp add: power_divide)
  finally have p: "c ^ 10 = 1 / 128" .
  have q1: "(0.615 :: real) ^ 10 < 1 / 128"
    by (simp add: power_divide)
  have q2: "1 / 128 < (0.617 :: real) ^ 10"
    by (simp add: power_divide)
  have lo: "0.615 < c"
  proof (rule ccontr)
    assume "\<not> 0.615 < c"
    then have "c \<le> 0.615" by simp
    then have "c ^ 10 \<le> 0.615 ^ 10"
      using pos by (intro power_mono) simp_all
    with p q1 show False by linarith
  qed
  have hi: "c < 0.617"
  proof (rule ccontr)
    assume "\<not> c < 0.617"
    then have "0.617 \<le> c" by simp
    then have "0.617 ^ 10 \<le> c ^ 10"
      by (intro power_mono) simp_all
    with p q2 show False by linarith
  qed
  from lo hi show ?thesis by (simp add: c_def)
qed

lemma numLeds_2250: "numLedsToLight 2250 = 37"
proof -
  have n: "(2250 - MIN_VOLUME) / (MAX_VOLUME_TARGET - MIN_VOLUME) = 0.5"
    by (simp add: MIN_VOLUME_def MAX_VOLUME_TARGET_def)
  have "\<lfloor>(0.5 :: real) powr 0.7 * 60 + 1 / 2\<rfloor> = 37"
    using half_powr_bounds by (intro floor_unique) simp_all
  then have "round_c (0.5 powr 0.7 * real LED_COUNT) = 37"
    by (simp add: round_c_def LED_COUNT_def)
  then show ?thesis
    by (simp add: numLedsToLight_def Let_def n constrain_def)
      (simp add: MIN_VOLUME_def MAX_VOLUME_TARGET_def LED_COUNT_def)
qed

lemma sqrt_2250: "sqrt 5062500 = 2250"
proof -
  have "sqrt 5062500 = sqrt (2250\<^sup>2)" by simp
  also have "\<dots> = 2250" by (simp only: real_sqrt_abs abs_numeral)
  finally show ?thesis .
qed

lemma block_rms_one_sample_2250:
  "block_rms 100000 \<lparr> esp_ok = True, bytesIn = 4, sBuffer = [36864000] \<rparr> = Some 2250"
  by (simp add: block_rms_def samples_read_def sqrt_2250)

lemma indices_37:
  "map ledIndex (ordinals 37) =
     [30, 29, 31, 28, 32, 27, 33, 26, 34, 25, 35, 24, 36,
      23, 37, 22, 38, 21, 39, 20, 40, 19, 41, 18, 42, 17,
      43, 16, 44, 15, 45, 14, 46, 13, 47, 12, 48]"
  by (simp add: ordinals_def ledIndex_def center_def LED_COUNT_def upt_rec)

lemma frame_37:
  "map (\<lambda>j. if 30 - 37 div 2 \<le> j \<and> j < 30 + (37 + 1) div 2 then pixelColor (int j) else 0)
       [0..<60] =
     replicate 12 0 @ replicate 9 0xFFFF00 @ replicate 19 0x00FF00
           @ replicate 9 0xFFFF00 @ replicate 11 0"
proof -
  have "replicate 12 0 @ replicate 9 0xFFFF00 @ replicate 19 0x00FF00
           @ replicate 9 0xFFFF00 @ replicate 11 0 =
     ([0, 0, 0, 0, 0, 0,
      0, 0, 0, 0, 0, 0,
      0xFFFF00, 0xFFFF00, 0xFFFF00, 0xFFFF00, 0xFFFF00, 0xFFFF00,
      0xFFFF00, 0xFFFF00, 0xFFFF00, 0x00FF00, 0x00FF00, 0x00FF00,
      0x00FF00, 0x00FF00, 0x00FF00, 0x00FF00, 0x00FF00, 0x00FF00,
      0x00FF00, 0x00FF00, 0x00FF00, 0x00FF00, 0x00FF00, 0x00FF00,
      0x00FF00, 0x00FF00, 0x00FF00, 0x00FF00, 0xFFFF00, 0xFFFF00,
      0xFFFF00, 0xFFFF00, 0xFFFF00, 0xFFFF00, 0xFFFF00, 0xFFFF00,
      0xFFFF00, 0, 0, 0, 0, 0,
      0, 0, 0, 0, 0, 0] :: 32 word list)"
    by (simp add: numeral_eq_Suc)
  then show ?thesis
    by (simp add: upt_rec pixelColor_def center_def LED_COUNT_def)
qed

text \<open>
  Claim C7. With baseline 0 and scale 1, blocks of RMS 2250 keep a settled
  \<open>smoothVolume\<close> at 2250. Then the normalized level is 0.5, the curved level
  \<open>0.5 powr 0.7\<close> is 0.616 up to 0.001, \<open>round (0.616 * 60) = 37\<close> and 37 pixels are
  lit. They are set outward from the midpoint 30: even ordinals step right (30, 31,
  ...), odd ordinals step left (29, 28, ...), giving pixels 12 to 48, green within
  the inner third and yellow beyond.
\<close>

theorem scenario_half_scale:
  "smoothVolume (process_audio \<lparr> esp_ok = True, bytesIn = 4, sBuffer = [36864000] \<rparr>
      (initial\<lparr> baselineNoise := 0, dynamicScaleFactor := 1,
          volumeFilter := [2250, 2250, 2250, 2250, 2250],
          previousVolume := 2250, smoothVolume := 2250 \<rparr>)) = 2250
   \<and> (2250 - MIN_VOLUME) / (MAX_VOLUME_TARGET - MIN_VOLUME) = 0.5
   \<and> \<bar>0.5 powr 0.7 - 0.616\<bar> < (0.001 :: real)
   \<and> round_c (0.616 * real LED_COUNT) = 37
   \<and> numLedsToLight 2250 = 37
   \<and> center = 30
   \<and> map ledIndex (ordinals (numLedsToLight 2250)) =
         [30, 29, 31, 28, 32, 27, 33, 26, 34, 25, 35, 24, 36,
      23, 37, 22, 38, 21, 39, 20, 40, 19, 41, 18, 42, 17,
      43, 16, 44, 15, 45, 14, 46, 13, 47, 12, 48]
   \<and> leds (updateLedsByVolume (s\<lparr> smoothVolume := 2250 \<rparr>)) =
         replicate 12 0 @ replicate 9 0xFFFF00 @ replicate 19 0x00FF00
           @ replicate 9 0xFFFF00 @ replicate 11 0"
proof -
  have a: "smoothVolume (process_audio \<lparr> esp_ok = True, bytesIn = 4, sBuffer = [36864000] \<rparr>
      (initial\<lparr> baselineNoise := 0, dynamicScaleFactor := 1,
          volumeFilter := [2250, 2250, 2250, 2250, 2250],
          previousVolume := 2250, smoothVolume := 2250 \<rparr>)) = 2250"
    by (simp add: process_audio_def block_rms_one_sample_2250 Let_def initial_def
        calibratedVolume_def rawVolume_def constrain_def MAX_VOLUME_TARGET_def
        filteredVolume_unfold FILTER_SIZE_def rate_limit_def ema_def SMOOTHING_FACTOR_def)
  have b: "(2250 - MIN_VOLUME) / (MAX_VOLUME_TARGET - MIN_VOLUME) = 0.5"
    by (simp add: MIN_VOLUME_def MAX_VOLUME_TARGET_def)
  have c: "\<bar>0.5 powr 0.7 - 0.616\<bar> < (0.001 :: real)"
    using half_powr_bounds by linarith
  have d: "round_c (0.616 * real LED_COUNT) = 37"
    by (simp add: round_c_def LED_COUNT_def)
  have e: "center = 30"
    by (simp add: center_def LED_COUNT_def)
  have "foldl setPixel (replicate LED_COUNT 0) (ordinals 37) =
         replicate 12 0 @ replicate 9 0xFFFF00 @ replicate 19 0x00FF00
           @ replicate 9 0xFFFF00 @ replicate 11 0"
    using lit_frame [of 37] by (simp only: frame_37 of_nat_numeral)
  then have f: "leds (updateLedsByVolume (s\<lparr> smoothVolume := 2250 \<rparr>)) =
         replicate 12 0 @ replicate 9 0xFFFF00 @ replicate 19 0x00FF00
           @ replicate 9 0xFFFF00 @ replicate 11 0"
    by (simp add: updateLedsByVolume_def numLeds_2250)
  from a b c d numLeds_2250 e indices_37 f show ?thesis
    by (simp only: numLeds_2250)
qed

section \<open>Envelope extractor\<close>

lemma sint_shift: "sint (signed_drop_bit 14 (w :: 32 word)) = sint w div 2 ^ 14"
  by (simp add: sint_signed_drop_bit_eq drop_bit_eq_div)

lemma square_fits:
  fixes x :: "32 word"
  assumes "\<bar>sint x\<bar> \<le> 46340"
  shows "sint (x * x) = sint x * sint x"
proof -
  have "sint x * sint x = \<bar>sint x\<bar> * \<bar>sint x\<bar>" by simp
  also have "\<dots> \<le> 46340 * 46340" using assms by (intro mult_mono) auto
  finally have "sint x * sint x < 2 ^ 31" by simp
  moreover have "- (2 ^ 31) \<le> sint x * sint x"
    by (rule order_trans [of _ 0]) simp_all
  ultimately show ?thesis
    by (simp add: sint_word_mult signed_take_bit_int_eq_self)
qed

lemma real_of_int_sum_list:
  "real_of_int (\<Sum>x\<leftarrow>xs. f x) = (\<Sum>x\<leftarrow>xs. real_of_int (f x))"
  by (induction xs) simp_all

text \<open>
  Where a kept sample is larger than 46340 in magnitude its \<open>int32_t\<close> square does
  not fit: a single sample of 50000 leaves a negative sum.
\<close>

lemma square_wraps:
  "accumulate 100000 [819200000] (0, 0) = (- 1794967296, 1)"
  by simp




section \<open>Noise-floor calibration\<close>

lemma calibration_fold:
  "foldl (calibration_step reads) (t, v) ks
     = (t + sum_list (List.map_filter (\<lambda>k. block_rms 50000 (reads k)) ks),
        v + length (List.map_filter (\<lambda>k. block_rms 50000 (reads k)) ks))"
  by (induction ks arbitrary: t v)
    (simp_all add: calibration_step_def split: option.split)

lemma accumulate_zeros:
  "accumulate thr (replicate m 0) (0, n) = (0, if 0 < thr then n + m else n)"
  by (induction m arbitrary: n) simp_all

lemma block_rms_silent:
  "block_rms 50000 \<lparr> esp_ok = True, bytesIn = 256, sBuffer = replicate 64 0 \<rparr> = Some 0"
  by (simp add: block_rms_def samples_read_def accumulate_zeros)

lemma map_filter_None: "List.map_filter (\<lambda>k. None) ks = []"
  by (induction ks) simp_all

lemma block_rms_spec:
  assumes "\<forall>x\<in>set (spec_valid_samples thr r). \<bar>x\<bar> \<le> 46340"
  shows "block_rms thr r = spec_block_rms thr r"
proof -
  define ws where "ws = filter (\<lambda>w. \<bar>sint (signed_drop_bit 14 w)\<bar> < thr)
      (take (nat (samples_read r)) (sBuffer r))"
  have v: "spec_valid_samples thr r = map (\<lambda>w. sint (signed_drop_bit 14 w)) ws"
    by (simp add: spec_valid_samples_def ws_def filter_map comp_def sint_shift)
  have small: "\<bar>sint (signed_drop_bit 14 w)\<bar> \<le> 46340" if "w \<in> set ws" for w
    using assms that unfolding v by auto
  have i: "map (\<lambda>w. sint (signed_drop_bit 14 w * signed_drop_bit 14 w)) ws
      = map (\<lambda>w. sint (signed_drop_bit 14 w) * sint (signed_drop_bit 14 w)) ws"
    by (rule map_cong [OF refl]) (simp only: square_fits small)
  have "(\<Sum>w\<leftarrow>ws. real_of_int (sint (signed_drop_bit 14 w * signed_drop_bit 14 w)))
      = real_of_int (\<Sum>w\<leftarrow>ws. sint (signed_drop_bit 14 w * signed_drop_bit 14 w))"
    by (simp only: real_of_int_sum_list)
  also have "\<dots> = real_of_int (\<Sum>w\<leftarrow>ws. sint (signed_drop_bit 14 w) * sint (signed_drop_bit 14 w))"
    by (simp only: i)
  also have "\<dots> = real_of_int (\<Sum>x\<leftarrow>spec_valid_samples thr r. x * x)"
    by (simp only: v map_map comp_def)
  finally have s: "(\<Sum>w\<leftarrow>ws. real_of_int (sint (signed_drop_bit 14 w * signed_drop_bit 14 w)))
      = real_of_int (\<Sum>x\<leftarrow>spec_valid_samples thr r. x * x)" .
  have l: "length ws = length (spec_valid_samples thr r)"
    by (simp only: v length_map)
  have acc: "accumulate thr (take (nat (samples_read r)) (sBuffer r)) (0, 0)
      = (real_of_int (\<Sum>x\<leftarrow>spec_valid_samples thr r. x * x), length (spec_valid_samples thr r))"
    by (simp only: accumulate_filter ws_def [symmetric] s l) simp
  show ?thesis
    unfolding block_rms_def spec_block_rms_def spec_rms_def acc by simp
qed

lemma map_filter_agree:
  "\<forall>x\<in>set xs. f x = g x \<Longrightarrow> List.map_filter f xs = List.map_filter g xs"
  by (induction xs) (auto split: option.split)

text \<open>
  The calibrator over the model's \<open>block_rms\<close>; it speaks for the code where no
  block's squares wrap, which \<open>calibration_without_overflow\<close> makes explicit.
\<close>

lemma calibration_mean:
  "baselineNoise (calibrateBaseline fmt reads initial)
     = (let rs = List.map_filter (\<lambda>k. block_rms 50000 (reads k)) [0..<CALIBRATION_SAMPLES]
        in if rs = [] then 15000 else sum_list rs / real (length rs))"
  by (simp add: calibrateBaseline_def Let_def calibration_fold initial_def)

lemma calibration_without_overflow:
  assumes "\<forall>k<CALIBRATION_SAMPLES. \<forall>x\<in>set (spec_valid_samples 50000 (reads k)). \<bar>x\<bar> \<le> 46340"
  shows "baselineNoise (calibrateBaseline fmt reads initial)
     = (let rs = List.map_filter (\<lambda>k. spec_block_rms 50000 (reads k)) [0..<CALIBRATION_SAMPLES]
        in if rs = [] then 15000 else sum_list rs / real (length rs))"
proof -
  have "List.map_filter (\<lambda>k. block_rms 50000 (reads k)) [0..<CALIBRATION_SAMPLES]
      = List.map_filter (\<lambda>k. spec_block_rms 50000 (reads k)) [0..<CALIBRATION_SAMPLES]"
    using assms by (intro map_filter_agree) (simp add: block_rms_spec)
  then show ?thesis
    by (simp only: calibration_mean)
qed

lemma map_filter_Some: "List.map_filter (\<lambda>k. Some c) ks = replicate (length ks) c"
  by (induction ks) simp_all

lemma calibration_silent_room:
  "baselineNoise (calibrateBaseline fmt
      (\<lambda>k. \<lparr> esp_ok = True, bytesIn = 256, sBuffer = replicate 64 0 \<rparr>) initial) = 0"
  by (simp add: calibration_mean block_rms_silent map_filter_Some CALIBRATION_SAMPLES_def
      sum_list_replicate)

lemma calibration_default:
  "baselineNoise (calibrateBaseline fmt
      (\<lambda>k. \<lparr> esp_ok = False, bytesIn = 0, sBuffer = [] \<rparr>) initial) = 15000"
  by (simp add: calibration_mean block_rms_def map_filter_None)

text \<open>
  Claim C5 against the code. Where the square of every kept sample fits \<open>int32_t\<close>,
  calibration keeps the default 15000 when no block yields an RMS and otherwise sets
  the baseline to the mean of the per-block RMS values, the RMS in the words of the
  specification. But the calibration filter keeps samples up to 49999 in magnitude,
  and from 46341 on \<open>sample * sample\<close> wraps. For blocks of the single sample 46341
  the accumulated sum is -2147479015, each of the 100 blocks still counts as valid,
  and the baseline written is not the blocks' RMS 46341: in C the square root of the
  negative sum is NaN.
\<close>

theorem calibration_square_overflow:
  "((\<forall>k<CALIBRATION_SAMPLES. \<forall>x\<in>set (spec_valid_samples 50000 (reads k)). \<bar>x\<bar> \<le> 46340)
      \<longrightarrow> baselineNoise (calibrateBaseline fmt reads initial)
           = (let rs = List.map_filter (\<lambda>k. spec_block_rms 50000 (reads k))
                         [0..<CALIBRATION_SAMPLES]
              in if rs = [] then 15000 else sum_list rs / real (length rs)))
   \<and> \<bar>sint (signed_drop_bit 14 (759250944 :: 32 word))\<bar> = 46341
   \<and> accumulate 50000 [759250944] (0, 0) = (- 2147479015, 1)
   \<and> snd (foldl (calibration_step
              (\<lambda>k. \<lparr> esp_ok = True, bytesIn = 4, sBuffer = [759250944] \<rparr>))
            (0, 0) [0..<CALIBRATION_SAMPLES]) = 100
   \<and> spec_block_rms 50000 \<lparr> esp_ok = True, bytesIn = 4, sBuffer = [759250944] \<rparr>
       = Some 46341
   \<and> baselineNoise (calibrateBaseline fmt
         (\<lambda>k. \<lparr> esp_ok = True, bytesIn = 4, sBuffer = [759250944] \<rparr>) initial) \<noteq> 46341"
proof -
  have a: "\<bar>sint (signed_drop_bit 14 (759250944 :: 32 word))\<bar> = 46341"
    by simp
  have b: "accumulate 50000 [759250944] (0, 0) = (- 2147479015, 1)"
    by simp
  have r: "block_rms 50000 \<lparr> esp_ok = True, bytesIn = 4, sBuffer = [759250944] \<rparr>
      = Some (sqrt (- 2147479015))"
    by (simp add: block_rms_def samples_read_def)
  have c: "snd (foldl (calibration_step
              (\<lambda>k. \<lparr> esp_ok = True, bytesIn = 4, sBuffer = [759250944] \<rparr>))
            (0, 0) [0..<CALIBRATION_SAMPLES]) = 100"
    by (simp add: calibration_fold r map_filter_Some CALIBRATION_SAMPLES_def)
  have "sqrt 2147488281 = sqrt (46341\<^sup>2)" by simp
  also have "\<dots> = 46341" by (simp only: real_sqrt_abs abs_numeral)
  finally have d: "spec_block_rms 50000 \<lparr> esp_ok = True, bytesIn = 4, sBuffer = [759250944] \<rparr>
       = Some 46341"
    by (simp add: spec_block_rms_def spec_valid_samples_def spec_rms_def samples_read_def)
  have "baselineNoise (calibrateBaseline fmt
         (\<lambda>k. \<lparr> esp_ok = True, bytesIn = 4, sBuffer = [759250944] \<rparr>) initial)
      = sqrt (- 2147479015)"
    by (simp add: calibration_mean r map_filter_Some CALIBRATION_SAMPLES_def sum_list_replicate)
  moreover have "sqrt (- 2147479015) < 0"
    by simp
  ultimately have e: "baselineNoise (calibrateBaseline fmt
         (\<lambda>k. \<lparr> esp_ok = True, bytesIn = 4, sBuffer = [759250944] \<rparr>) initial) \<noteq> 46341"
    by linarith
  have f: "(\<forall>k<CALIBRATION_SAMPLES. \<forall>x\<in>set (spec_valid_samples 50000 (reads k)). \<bar>x\<bar> \<le> 46340)
      \<longrightarrow> baselineNoise (calibrateBaseline fmt reads initial)
           = (let rs = List.map_filter (\<lambda>k. spec_block_rms 50000 (reads k))
                         [0..<CALIBRATION_SAMPLES]
              in if rs = [] then 15000 else sum_list rs / real (length rs))"
    by (rule impI) (rule calibration_without_overflow)
  from f a b c d e show ?thesis by (intro conjI)
qed

theorem calibration_square_overflow_witness:
  "baselineNoise (calibrateBaseline (\<lambda>x. [])
      (\<lambda>k. if k = 0 then \<lparr> esp_ok = True, bytesIn = 4, sBuffer = [3276800] \<rparr>
           else if k = 1 then \<lparr> esp_ok = True, bytesIn = 4, sBuffer = [36864000] \<rparr>
           else \<lparr> esp_ok = False, bytesIn = 0, sBuffer = [] \<rparr>) initial) = 1225"
proof -
  define reads where "reads = (\<lambda>k :: nat.
      if k = 0 then \<lparr> esp_ok = True, bytesIn = 4, sBuffer = [3276800 :: 32 word] \<rparr>
      else if k = 1 then \<lparr> esp_ok = True, bytesIn = 4, sBuffer = [36864000] \<rparr>
      else \<lparr> esp_ok = False, bytesIn = 0, sBuffer = [] \<rparr>)"
  have h: "\<forall>k<CALIBRATION_SAMPLES. \<forall>x\<in>set (spec_valid_samples 50000 (reads k)). \<bar>x\<bar> \<le> 46340"
    by (simp add: reads_def spec_valid_samples_def samples_read_def)
  have rs: "List.map_filter (\<lambda>k. spec_block_rms 50000 (reads k)) [0..<CALIBRATION_SAMPLES]
      = [200, 2250]"
    by (simp add: reads_def CALIBRATION_SAMPLES_def upt_rec spec_block_rms_def
        spec_valid_samples_def spec_rms_def samples_read_def sqrt_40000 sqrt_2250)
  from calibration_square_overflow [of reads "\<lambda>x. []"] h
  have "baselineNoise (calibrateBaseline (\<lambda>x. []) reads initial)
      = (let rs = List.map_filter (\<lambda>k. spec_block_rms 50000 (reads k))
                    [0..<CALIBRATION_SAMPLES]
         in if rs = [] then 15000 else sum_list rs / real (length rs))"
    by blast
  then show ?thesis
    unfolding rs by (simp add: reads_def)
qed

section \<open>Telemetry line\<close>

lemma serial_recalibrate: "serial (recalibrate now s) = serial s"
  by (simp add: recalibrate_def Let_def addPeakToHistory_def)

text \<open>
  Claim C9 against the code. An update tick appends exactly one line to the serial
  stream, with the fixed bounds -1000 and 5000 and the keys in the stated order, but
  the line starts \<open>MinRange:-1000Volume:\<close>: \<open>Volume:\<close> is printed without the comma
  that precedes each of the other keys.
\<close>

theorem telemetry_line:
  "telemetry fmt s = ''MinRange:-1000Volume:'' @ fmt (volume s)
       @ '',SmoothVolume:'' @ fmt (smoothVolume s)
       @ '',MaxVolume:'' @ fmt (maxVolume s) @ '',MaxRange:5000'' @ crlf
   \<and> serial (tick fmt now s) = serial s @ telemetry fmt (tick fmt now s)"
proof -
  have a: "telemetry fmt s = ''MinRange:-1000Volume:'' @ fmt (volume s)
       @ '',SmoothVolume:'' @ fmt (smoothVolume s)
       @ '',MaxVolume:'' @ fmt (maxVolume s) @ '',MaxRange:5000'' @ crlf"
    by (simp add: telemetry_def print_int_def)
  have b: "serial (tick fmt now s) = serial s @ telemetry fmt (tick fmt now s)"
    by (simp add: tick_def Let_def telemetry_def serial_recalibrate updateLedsByVolume_def)
  from a b show ?thesis by (rule conjI)
qed

section \<open>The rate limiter on runs from the initial state\<close>

text \<open>
  One cycle replaces a single slot of the five-slot window, so the mean moves by at
  most \<open>3000 / 5 = 600\<close>. From the initial state \<open>previousVolume\<close> therefore always
  equals the previous mean, and the gap the rate limiter tests never exceeds 600: on
  such runs its limiting branch is not taken.
\<close>

lemma filteredVolume_update:
  assumes "length vf = FILTER_SIZE" "i < FILTER_SIZE"
  shows "filteredVolume (vf[i := x]) = filteredVolume vf - vf ! i + x"
proof -
  have "i = 0 \<or> i = 1 \<or> i = 2 \<or> i = 3 \<or> i = 4"
    using assms(2) by (simp add: FILTER_SIZE_def) arith
  then show ?thesis
    using assms(1) by (auto simp: filteredVolume_unfold FILTER_SIZE_def)
qed

lemma moving_average_step:
  assumes "tracking s"
  shows "\<bar>filteredVolume ((volumeFilter s)[filterIndex s := rawVolume cv k]) / real FILTER_SIZE
           - previousVolume s\<bar> \<le> 600"
proof -
  have ok: "smoother_ok s" and pv: "previousVolume s = filteredVolume (volumeFilter s) / 5"
    using assms by (simp_all add: tracking_def FILTER_SIZE_def)
  have len: "length (volumeFilter s) = FILTER_SIZE" and fi: "filterIndex s < FILTER_SIZE"
    using ok by (simp_all add: smoother_ok_def)
  have old: "in_range (volumeFilter s ! filterIndex s)"
    using ok len fi by (simp add: smoother_ok_def list_all_length)
  have new: "in_range (rawVolume cv k)"
    by (rule rawVolume_in_range)
  have "filteredVolume ((volumeFilter s)[filterIndex s := rawVolume cv k])
      = filteredVolume (volumeFilter s) - volumeFilter s ! filterIndex s + rawVolume cv k"
    by (rule filteredVolume_update [OF len fi])
  then have "\<bar>filteredVolume ((volumeFilter s)[filterIndex s := rawVolume cv k]) / 5
        - previousVolume s\<bar>
      = \<bar>rawVolume cv k - volumeFilter s ! filterIndex s\<bar> / 5"
    by (simp add: pv field_simps)
  also have "\<dots> \<le> 600"
    using old new by (auto simp: in_range_def MAX_VOLUME_TARGET_def abs_le_iff)
  finally show ?thesis
    by (simp add: FILTER_SIZE_def)
qed

lemma process_audio_tracking:
  assumes "tracking s"
  shows "tracking (process_audio r s)"
proof (cases "block_rms 100000 r")
  case None
  with assms show ?thesis by (simp add: process_audio_def)
next
  case (Some rms)
  define vf where "vf = (volumeFilter s)[filterIndex s :=
      rawVolume (calibratedVolume rms (baselineNoise s)) (dynamicScaleFactor s)]"
  have "\<bar>filteredVolume vf / real FILTER_SIZE - previousVolume s\<bar> \<le> 600"
    unfolding vf_def using assms by (rule moving_average_step)
  then have "rate_limit (filteredVolume vf / real FILTER_SIZE) (previousVolume s)
      = filteredVolume vf / real FILTER_SIZE"
    by (simp add: rate_limit_def MAX_VOLUME_TARGET_def)
  moreover have "smoother_ok (process_audio r s)"
    using assms by (simp add: tracking_def process_audio_ok)
  ultimately show ?thesis
    using Some
    by (simp add: tracking_def process_audio_def Let_def vf_def [symmetric])
qed

lemma run_tracking: "tracking s \<Longrightarrow> tracking (run fmt cycles s)"
proof (induction cycles arbitrary: s)
  case Nil
  then show ?case by (simp add: run_def)
next
  case (Cons c cycles)
  obtain now r where c: "c = (now, r)" by (cases c)
  have "tracking (loop fmt now r s)"
    using process_audio_tracking [OF Cons.prems, of r]
    by (simp add: loop_def Let_def tracking_def tick_ok tick_frame)
  then have "tracking (run fmt cycles (loop fmt now r s))"
    by (rule Cons.IH)
  then show ?case
    by (simp add: run_def c)
qed

lemma rate_limiter_idle:
  "\<bar>filteredVolume ((volumeFilter (run fmt cycles (calibrateBaseline fmt reads initial)))
        [filterIndex (run fmt cycles (calibrateBaseline fmt reads initial)) := rawVolume cv k])
      / real FILTER_SIZE
     - previousVolume (run fmt cycles (calibrateBaseline fmt reads initial))\<bar> \<le> 600"
proof -
  have "tracking initial"
    by (simp add: tracking_def initial_ok)
      (simp add: initial_def filteredVolume_unfold FILTER_SIZE_def)
  then have "tracking (calibrateBaseline fmt reads initial)"
    by (simp add: tracking_def calibrate_ok) (simp add: calibrateBaseline_def Let_def)
  then have "tracking (run fmt cycles (calibrateBaseline fmt reads initial))"
    by (rule run_tracking)
  then show ?thesis
    by (rule moving_average_step)
qed

end
